theory Spec2Isabelle
  imports Main
begin

section \<open>Expiry-date extraction (ExpiryDateScannerDialog.tsx, captureAndScan)\<close>

text \<open>
  The recognised text is a JavaScript string. Neither regular expression carries the
  \<open>i\<close> or \<open>u\<close> flag, so \<open>\d\<close>, \<open>\b\<close> and the class \<open>[\/\-\.]\<close> look at ASCII code
  units only; every other code unit is one more character that is neither a digit, nor a
  word character, nor a separator. The text is therefore modelled as a \<open>string\<close>.
\<close>

subsection \<open>The host's string and regular-expression primitives\<close>

definition isDigit :: "char \<Rightarrow> bool" where
  "isDigit c = (c \<in> set ''0123456789'')"

definition wordChar :: "char \<Rightarrow> bool" where
  "wordChar c =
     (c \<in> set ''abcdefghijklmnopqrstuvwxyzABCDEFGHIJKLMNOPQRSTUVWXYZ0123456789_'')"

text \<open>\<open>IsWordChar(e)\<close> of the language definition: false at \<open>-1\<close> and at the input length.\<close>

definition isWordChar :: "string \<Rightarrow> int \<Rightarrow> bool" where
  "isWordChar x e = (0 \<le> e \<and> e < int (length x) \<and> wordChar (x ! nat e))"

text \<open>\<open>String.prototype.padStart(targetLength, padString)\<close>.\<close>

definition padStart :: "string \<Rightarrow> nat \<Rightarrow> string \<Rightarrow> string" where
  "padStart s targetLength padString =
     (if targetLength \<le> length s \<or> padString = [] then s
      else take (targetLength - length s)
             (concat (replicate (targetLength - length s) padString)) @ s)"

text \<open>\<open>String.prototype.includes(searchString)\<close>.\<close>

fun str_includes :: "string \<Rightarrow> string \<Rightarrow> bool" where
  "str_includes [] searchString = (searchString = [])"
| "str_includes (c # cs) searchString =
     (take (length searchString) (c # cs) = searchString \<or> str_includes cs searchString)"

text \<open>
  The pieces the two date patterns are made of: the assertion \<open>\b\<close>, a character class,
  and a capturing group \<open>(\d{lo,hi})\<close> (with \<open>lo = hi\<close> for \<open>(\d{4})\<close>).
\<close>

datatype node = WordBoundary | CharClass "char list" | DigitsGroup nat nat

text \<open>
  The backtracking matcher, in the continuation style of the language definition.
  \<open>attempt c k x i caps\<close> takes exactly \<open>k\<close> digits at index \<open>i\<close>, records them as a
  capture and hands over to the continuation \<open>c\<close>. A greedy \<open>\d{lo,hi}\<close> first takes as
  many digits as it can and gives them back one by one when the rest fails:
  \<open>greedy c lo d\<close> tries \<open>lo + d\<close> digits, then \<open>lo + d - 1\<close>, down to \<open>lo\<close>.
  \<open>m ns x i caps\<close> matches the nodes \<open>ns\<close> against \<open>x\<close> from index \<open>i\<close> and yields the
  end index and the captures.
\<close>

type_synonym matchResult = "(nat \<times> string list) option"

definition attempt :: "(nat \<Rightarrow> string list \<Rightarrow> matchResult) \<Rightarrow> nat \<Rightarrow> string \<Rightarrow> nat
                         \<Rightarrow> string list \<Rightarrow> matchResult" where
  "attempt c k x i caps =
     (if i + k \<le> length x \<and> list_all isDigit (take k (drop i x))
      then c (i + k) (caps @ [take k (drop i x)])
      else None)"

primrec greedy :: "(nat \<Rightarrow> string list \<Rightarrow> matchResult) \<Rightarrow> nat \<Rightarrow> nat \<Rightarrow> string \<Rightarrow> nat
                     \<Rightarrow> string list \<Rightarrow> matchResult" where
  "greedy c lo 0 x i caps = attempt c lo x i caps"
| "greedy c lo (Suc d) x i caps =
     (case attempt c (lo + Suc d) x i caps of
        Some res \<Rightarrow> Some res
      | None \<Rightarrow> greedy c lo d x i caps)"

primrec m :: "node list \<Rightarrow> string \<Rightarrow> nat \<Rightarrow> string list \<Rightarrow> matchResult" where
  "m [] x i caps = Some (i, caps)"
| "m (n # r) x i caps =
     (case n of
        WordBoundary \<Rightarrow>
          (if isWordChar x (int i - 1) \<noteq> isWordChar x (int i) then m r x i caps else None)
      | CharClass cs \<Rightarrow>
          (if i < length x \<and> x ! i \<in> set cs then m r x (Suc i) caps else None)
      | DigitsGroup lo hi \<Rightarrow>
          (if lo \<le> hi then greedy (m r x) lo (hi - lo) x i caps else None))"

text \<open>
  \<open>RegExp.prototype.exec\<close> on a global pattern: the search starts at \<open>lastIndex\<close>, moves
  right one index at a time, and fails past the end of the input. A match is the array
  \<open>[match[0], match[1], ...]\<close> together with the new \<open>lastIndex\<close>, the end of the match.
\<close>

function exec :: "node list \<Rightarrow> string \<Rightarrow> nat \<Rightarrow> (string list \<times> nat) option" where
  "exec ns x lastIndex =
     (if length x < lastIndex then None
      else case m ns x lastIndex [] of
             Some (e, caps) \<Rightarrow> Some (take (e - lastIndex) (drop lastIndex x) # caps, e)
           | None \<Rightarrow> exec ns x (Suc lastIndex))"
  by pat_completeness auto
termination
  by (relation "measure (\<lambda>(ns, x, lastIndex). Suc (length x) - lastIndex)") auto

declare exec.simps [simp del]

subsection \<open>The date patterns\<close>

text \<open>
  A pattern is its source text, which the loop body inspects, and its parsed form, which
  \<open>exec\<close> runs. The two literals of \<open>datePatterns\<close>:
  \<^verbatim>\<open>/\b(\d{1,2})[\/\-\.](\d{1,2})[\/\-\.](\d{4})\b/g\<close> and
  \<^verbatim>\<open>/\b(\d{4})[\/\-\.](\d{1,2})[\/\-\.](\d{1,2})\b/g\<close>.
\<close>

record pattern =
  source :: string
  nodes :: "node list"

definition backslash :: char where
  "backslash = CHR 0x5C"

definition src_b :: string where
  "src_b = [backslash, CHR ''b'']"

definition src_d12 :: string where
  "src_d12 = ''('' @ [backslash] @ ''d{1,2})''"

definition src_d4 :: string where
  "src_d4 = ''('' @ [backslash] @ ''d{4})''"

definition src_sep :: string where
  "src_sep = ''['' @ [backslash] @ ''/'' @ [backslash] @ ''-'' @ [backslash] @ ''.]''"

definition separators :: "char list" where
  "separators = ''/-.''"

definition dmyPattern :: pattern where
  "dmyPattern =
     \<lparr>source = src_b @ src_d12 @ src_sep @ src_d12 @ src_sep @ src_d4 @ src_b,
      nodes = [WordBoundary, DigitsGroup 1 2, CharClass separators, DigitsGroup 1 2,
               CharClass separators, DigitsGroup 4 4, WordBoundary]\<rparr>"

definition ymdPattern :: pattern where
  "ymdPattern =
     \<lparr>source = src_b @ src_d4 @ src_sep @ src_d12 @ src_sep @ src_d12 @ src_b,
      nodes = [WordBoundary, DigitsGroup 4 4, CharClass separators, DigitsGroup 1 2,
               CharClass separators, DigitsGroup 1 2, WordBoundary]\<rparr>"

definition datePatterns :: "pattern list" where
  "datePatterns = [dmyPattern, ymdPattern]"

subsection \<open>The loop over the matches\<close>

text \<open>
  \<open>new Date(dateStr)\<close> belongs to the host. What the code reads from the object is
  whether its time value is \<open>NaN\<close> and its \<open>getFullYear()\<close>; a host is therefore a function
  from the string to the full year, \<open>None\<close> standing for an invalid date. Only the
  year-first forms of the language definition are parsed the same way by every host; any
  other string falls to the host's own rules.
\<close>

type_synonym dateHost = "string \<Rightarrow> int option"

datatype jsError = TypeError | RecognitionError

text \<open>
  The body of the \<open>while\<close> loop up to \<open>dateStr\<close>. The test is on the source text of the
  pattern: \<^verbatim>\<open>pattern.source.includes('(\\d{4})')\<close>. Reading a group the array does
  not have gives \<open>undefined\<close>, and \<open>padStart\<close> on it throws.
\<close>

definition dateStrOf :: "pattern \<Rightarrow> string list \<Rightarrow> jsError + string" where
  "dateStrOf p match =
     (case match of
        m0 # m1 # m2 # m3 # rest \<Rightarrow>
          (if str_includes (source p) src_d4
           then (let year = m1; month = padStart m2 2 ''0''; day = padStart m3 2 ''0''
                 in Inr (year @ ''-'' @ month @ ''-'' @ day))
           else (let day = padStart m1 2 ''0''; month = padStart m2 2 ''0''; year = m3
                 in Inr (year @ ''-'' @ month @ ''-'' @ day)))
      | _ \<Rightarrow> Inl TypeError)"

text \<open>The validity test on the assembled string, and the push.\<close>

definition validDate :: "dateHost \<Rightarrow> string \<Rightarrow> bool" where
  "validDate D dateStr =
     (case D dateStr of None \<Rightarrow> False | Some fullYear \<Rightarrow> 2020 < fullYear \<and> fullYear < 2050)"

definition pushIfValid :: "dateHost \<Rightarrow> string \<Rightarrow> string list \<Rightarrow> string list" where
  "pushIfValid D dateStr foundDates =
     (if validDate D dateStr then foundDates @ [dateStr] else foundDates)"

text \<open>
  \<^verbatim>\<open>while ((match = pattern.exec(text)) !== null) { ... }\<close>: the state is the
  pattern's \<open>lastIndex\<close> and \<open>foundDates\<close>. The loop runs for as long as \<open>exec\<close> finds a
  match, so it is a partial function: \<open>None\<close> is a loop that never ends, \<open>Some (Inl e)\<close>
  a loop left by an exception.
\<close>

partial_function (option) scanMatches ::
  "dateHost \<Rightarrow> pattern \<Rightarrow> string \<Rightarrow> nat \<Rightarrow> string list \<Rightarrow> (jsError + string list) option"
where
  "scanMatches D p text lastIndex foundDates =
     (case exec (nodes p) text lastIndex of
        None \<Rightarrow> Some (Inr foundDates)
      | Some (match, lastIndex') \<Rightarrow>
          (case dateStrOf p match of
             Inl err \<Rightarrow> Some (Inl err)
           | Inr dateStr \<Rightarrow>
               scanMatches D p text lastIndex' (pushIfValid D dateStr foundDates)))"

declare scanMatches.simps [code]

text \<open>\<^verbatim>\<open>datePatterns.forEach(pattern => ...)\<close>; each pattern starts at \<open>lastIndex = 0\<close>.\<close>

fun forEachPattern ::
  "dateHost \<Rightarrow> pattern list \<Rightarrow> string \<Rightarrow> string list \<Rightarrow> (jsError + string list) option"
where
  "forEachPattern D [] text foundDates = Some (Inr foundDates)"
| "forEachPattern D (p # ps) text foundDates =
     (case scanMatches D p text 0 foundDates of
        None \<Rightarrow> None
      | Some (Inl err) \<Rightarrow> Some (Inl err)
      | Some (Inr foundDates') \<Rightarrow> forEachPattern D ps text foundDates')"

definition extractDates :: "dateHost \<Rightarrow> string \<Rightarrow> (jsError + string list) option" where
  "extractDates D text = forEachPattern D datePatterns text []"

subsection \<open>A concrete host\<close>

text \<open>
  For running the pipeline a host is needed. \<open>hostDate\<close> is the \<open>Date\<close> of the V8 engine,
  in the time zone UTC, on the strings the pipeline assembles (three numbers joined by
  \<open>-\<close>): the year-first form \<open>dddd-dd-dd\<close> is read as the language definition says, with
  a month in 1..12 and a day in 1..31; anything else goes to the engine's fallback, which
  reads the numbers as month, day, year when the first one can be a day of the month and
  as year, month, day otherwise, and moves a year below 100 into 1950..2049.
\<close>

fun splitOn :: "char \<Rightarrow> string \<Rightarrow> string list" where
  "splitOn c [] = [[]]"
| "splitOn c (x # xs) =
     (if x = c then [] # splitOn c xs
      else (case splitOn c xs of [] \<Rightarrow> [[x]] | w # ws \<Rightarrow> (x # w) # ws))"

definition digitValue :: "char \<Rightarrow> int" where
  "digitValue c = int (of_char c) - 48"

definition numberOf :: "string \<Rightarrow> int" where
  "numberOf ds = foldl (\<lambda>n c. 10 * n + digitValue c) 0 ds"

definition isNumber :: "string \<Rightarrow> bool" where
  "isNumber ds = (ds \<noteq> [] \<and> list_all isDigit ds)"

definition legacyYear :: "int \<Rightarrow> int" where
  "legacyYear y = (if 0 \<le> y \<and> y \<le> 49 then y + 2000
                   else if 50 \<le> y \<and> y \<le> 99 then y + 1900 else y)"

definition isMonth :: "int \<Rightarrow> bool" where
  "isMonth n = (1 \<le> n \<and> n \<le> 12)"

definition isDay :: "int \<Rightarrow> bool" where
  "isDay n = (1 \<le> n \<and> n \<le> 31)"

definition hostDate :: dateHost where
  "hostDate s =
     (case splitOn CHR ''-'' s of
        [a, b, c] \<Rightarrow>
          (if \<not> (isNumber a \<and> isNumber b \<and> isNumber c) then None
           else if length a = 4 \<and> length b = 2 \<and> length c = 2
                   \<and> isMonth (numberOf b) \<and> isDay (numberOf c)
                then Some (numberOf a)
           else if isDay (numberOf a)
                then (if isMonth (numberOf a) \<and> isDay (numberOf b)
                      then Some (legacyYear (numberOf c)) else None)
           else (if isMonth (numberOf b) \<and> isDay (numberOf c)
                 then Some (legacyYear (numberOf a)) else None))
      | _ \<Rightarrow> None)"

text \<open>
  A host that, of the strings the pipeline assembles, takes the year-first ones only:
  every string that does not start with four digits is an invalid date.
\<close>

definition startsWithYear :: "string \<Rightarrow> bool" where
  "startsWithYear s = (4 \<le> length s \<and> list_all isDigit (take 4 s))"

definition yearFirstOnly :: dateHost where
  "yearFirstOnly s = (if startsWithYear s then hostDate s else None)"

text \<open>
  A host for which every string is a date of 2021. With it nothing is filtered out:
  \<open>foundDates\<close> then holds every string the loops assemble, in scan order.
\<close>

definition everyDate :: dateHost where
  "everyDate s = Some 2021"

text \<open>
  The shape of a string assembled from the groups of a day-month-year match in the order
  of the groups: \<open>k\<close> digits (one or two), a dash, two digits, a dash, four digits.
\<close>

definition dmyShape :: "nat \<Rightarrow> string \<Rightarrow> bool" where
  "dmyShape k s =
     (length s = k + 8 \<and> list_all isDigit (take k s) \<and> s ! k = CHR ''-''
      \<and> list_all isDigit (take 2 (drop (k + 1) s)) \<and> s ! (k + 3) = CHR ''-''
      \<and> list_all isDigit (drop (k + 4) s))"

definition dmyForm :: "string \<Rightarrow> bool" where
  "dmyForm s = (dmyShape 1 s \<or> dmyShape 2 s)"

subsection \<open>The dialog\<close>

text \<open>
  What the dialog does to its surroundings is recorded in order: the two callbacks of the
  props and the toasts. The state holds the two \<open>useState\<close> cells and the tracks the host
  still has running. A media stream is the list of its tracks.
\<close>

datatype toast = CameraAccessFailed | NoValidDate | DateScanned string | SeveralDates string
  | ScanFailed

datatype event = OnDetected string | OnClose | Toast toast

type_synonym mediaStream = "nat list"

record expiryState =
  isScanning :: bool
  stream :: "mediaStream option"
  liveTracks :: "nat set"
  events :: "event list"

definition emit :: "event list \<Rightarrow> expiryState \<Rightarrow> expiryState" where
  "emit es st = st\<lparr>events := events st @ es\<rparr>"

text \<open>\<open>startCamera\<close>, given how \<open>getUserMedia\<close> settles.\<close>

definition startCamera :: "jsError + mediaStream \<Rightarrow> expiryState \<Rightarrow> expiryState" where
  "startCamera userMedia st =
     (case userMedia of
        Inr mediaStream \<Rightarrow>
          st\<lparr>stream := Some mediaStream, liveTracks := liveTracks st \<union> set mediaStream\<rparr>
      | Inl err \<Rightarrow> emit [Toast CameraAccessFailed] st)"

text \<open>
  \<open>stopCamera\<close> reads \<open>stream\<close>, a constant of the render that created the function; it
  is the first argument. Stopping a track that is stopped already does nothing.
\<close>

definition stopCamera :: "mediaStream option \<Rightarrow> expiryState \<Rightarrow> expiryState" where
  "stopCamera renderStream st =
     (case renderStream of
        None \<Rightarrow> st
      | Some mediaStream \<Rightarrow>
          st\<lparr>liveTracks := liveTracks st - set mediaStream, stream := None\<rparr>)"

text \<open>
  The effect on \<open>open\<close>, when \<open>open\<close> turns false: first the cleanup of the previous run,
  which is the \<open>stopCamera\<close> of the render that opened the dialog, then the body, which is
  the \<open>stopCamera\<close> of the present render.
\<close>

definition closeDialog :: "mediaStream option \<Rightarrow> expiryState \<Rightarrow> expiryState" where
  "closeDialog openingRenderStream st =
     stopCamera (stream st) (stopCamera openingRenderStream st)"

text \<open>
  The component is unmounted while \<open>open\<close> is true: only the cleanup runs, and it is the
  \<open>stopCamera\<close> of the render that opened the dialog.
\<close>

definition unmountDialog :: "mediaStream option \<Rightarrow> expiryState \<Rightarrow> expiryState" where
  "unmountDialog openingRenderStream st = stopCamera openingRenderStream st"

text \<open>
  \<open>captureAndScan\<close> up to its \<open>await\<close>. The arguments say whether the two refs are set
  and whether the canvas gave a 2d context. The result says whether a recognition request
  is now pending.
\<close>

definition captureAndScan_begin ::
  "bool \<Rightarrow> bool \<Rightarrow> bool \<Rightarrow> expiryState \<Rightarrow> expiryState \<times> bool" where
  "captureAndScan_begin videoRef canvasRef ctx st =
     (if \<not> videoRef \<or> \<not> canvasRef then (st, False)
      else let st1 = st\<lparr>isScanning := True\<rparr>
           in if \<not> ctx then (st1, False) else (st1, True))"

text \<open>The three branches on \<open>foundDates.length\<close>.\<close>

definition deliver :: "string list \<Rightarrow> event list" where
  "deliver foundDates =
     (case foundDates of
        [] \<Rightarrow> [Toast NoValidDate]
      | [d] \<Rightarrow> [OnDetected d, OnClose, Toast (DateScanned d)]
      | d # _ \<Rightarrow> [OnDetected d, OnClose, Toast (SeveralDates d)])"

text \<open>
  \<open>captureAndScan\<close> from the moment the recognition settles: the rest of the \<open>try\<close>
  block, the \<open>catch\<close> and the \<open>finally\<close>. \<open>None\<close> is a scan loop that never ends.
\<close>

definition captureAndScan_resume ::
  "dateHost \<Rightarrow> jsError + string \<Rightarrow> expiryState \<Rightarrow> expiryState option" where
  "captureAndScan_resume D recognized st =
     (case recognized of
        Inl err \<Rightarrow> Some ((emit [Toast ScanFailed] st)\<lparr>isScanning := False\<rparr>)
      | Inr text \<Rightarrow>
          (case extractDates D text of
             None \<Rightarrow> None
           | Some (Inl err) \<Rightarrow> Some ((emit [Toast ScanFailed] st)\<lparr>isScanning := False\<rparr>)
           | Some (Inr foundDates) \<Rightarrow>
               Some ((emit (deliver foundDates) st)\<lparr>isScanning := False\<rparr>)))"

text \<open>One whole call with nothing in between.\<close>

definition captureAndScan ::
  "dateHost \<Rightarrow> bool \<Rightarrow> bool \<Rightarrow> bool \<Rightarrow> jsError + string \<Rightarrow> expiryState
     \<Rightarrow> expiryState option" where
  "captureAndScan D videoRef canvasRef ctx recognized st =
     (case captureAndScan_begin videoRef canvasRef ctx st of
        (st1, False) \<Rightarrow> Some st1
      | (st1, True) \<Rightarrow> captureAndScan_resume D recognized st1)"

text \<open>The dialog as mounted, and the dialog once the camera runs.\<close>

definition mounted :: expiryState where
  "mounted = \<lparr>isScanning = False, stream = None, liveTracks = {}, events = []\<rparr>"

definition cameraOn :: expiryState where
  "cameraOn = startCamera (Inr [0]) mounted"

section \<open>Barcode scanning (BarcodeScannerDialog.tsx)\<close>

subsection \<open>State\<close>

text \<open>
  The component function runs once per render. Each run binds \<open>scanning\<close> and
  \<open>lastDetectionTime\<close> as constants, and the functions it creates (\<open>startScanning\<close>, and
  inside it \<open>scan\<close> and the decoder callback) see those constants for as long as they
  live; a later \<open>setScanning\<close> or \<open>setLastDetectionTime\<close> changes the cell, not the
  constants of a function made earlier. A \<open>snapshot\<close> is what a render binds. The refs are
  mutable cells shared by all renders.
\<close>

record snapshot =
  snapScanning :: bool
  snapLastDetectionTime :: int

datatype userMessage = ScannerStartFailed | CameraPermissionRequired | NoCameraFound
  | CameraInUse | CheckBrowserPermission | CameraSettingsProblem

record exception =
  name :: string
  message :: string

record barcodeState =
  scanning :: bool
  error :: "userMessage option"
  success :: bool
  lastDetectionTime :: int
  scannerRef :: bool
  barcodeDetectorRef :: bool
  animationRef :: "nat option"
  videoRef :: bool
  streamRef :: "mediaStream option"
  controlsRef :: "nat option"
  activeTracks :: "nat set"
  frameCallbacks :: "(nat \<times> snapshot) list"
  nextFrame :: nat
  decoders :: "(nat \<times> snapshot \<times> mediaStream) list"
  timeouts :: "string list"
  calls :: "event list"

text \<open>
  \<open>videoRef\<close> says whether the video element is in the document: it is rendered with
  the content of the open dialog, and only while \<open>error\<close> is null.
  The last six fields are the host's side: the tracks still running, the animation-frame
  callbacks waiting with the constants they see, the handle the next
  \<open>requestAnimationFrame\<close> returns, the continuous decoders running (by the handle of
  their controls, with the constants their callback sees and the stream the decoder
  opened), the delivery timeouts waiting (all of 800 ms, so they fire in the order they
  were set) and the calls made to the two callbacks of the props.
\<close>

definition render :: "barcodeState \<Rightarrow> snapshot" where
  "render st = \<lparr>snapScanning = scanning st, snapLastDetectionTime = lastDetectionTime st\<rparr>"

definition requestAnimationFrame :: "snapshot \<Rightarrow> barcodeState \<Rightarrow> barcodeState" where
  "requestAnimationFrame snap st =
     st\<lparr>animationRef := Some (nextFrame st),
        frameCallbacks := frameCallbacks st @ [(nextFrame st, snap)],
        nextFrame := Suc (nextFrame st)\<rparr>"

definition cancelAnimationFrame :: "nat \<Rightarrow> barcodeState \<Rightarrow> barcodeState" where
  "cancelAnimationFrame h st =
     st\<lparr>frameCallbacks := filter (\<lambda>(h', snap). h' \<noteq> h) (frameCallbacks st)\<rparr>"

subsection \<open>stopScanning\<close>

text \<open>
  \<open>controls.stop()\<close> ends the decoder and stops the tracks of the stream the decoder
  opened. It sits in a \<open>try\<close> whose \<open>catch\<close> only logs; \<open>stopThrows\<close> says whether it
  threw, in which case the decoder is taken to be still running. A handle is truthy when
  it is not 0.
\<close>

definition decoderTracks :: "barcodeState \<Rightarrow> nat \<Rightarrow> nat set" where
  "decoderTracks st c =
     (case map_of (decoders st) c of None \<Rightarrow> {} | Some (snap, mediaStream) \<Rightarrow> set mediaStream)"

definition controlsStop :: "nat \<Rightarrow> barcodeState \<Rightarrow> barcodeState" where
  "controlsStop c st =
     st\<lparr>activeTracks := activeTracks st - decoderTracks st c,
        decoders := filter (\<lambda>(c', d). c' \<noteq> c) (decoders st)\<rparr>"

definition stopScanning :: "bool \<Rightarrow> barcodeState \<Rightarrow> barcodeState" where
  "stopScanning stopThrows st =
     (let st1 = (case animationRef st of
                   Some h \<Rightarrow> if h \<noteq> 0 then (cancelAnimationFrame h st)\<lparr>animationRef := None\<rparr>
                             else st
                 | None \<Rightarrow> st);
          st2 = st1\<lparr>barcodeDetectorRef := False\<rparr>;
          st3 = (case controlsRef st2 of
                   Some c \<Rightarrow>
                     (if stopThrows then st2 else controlsStop c st2)\<lparr>controlsRef := None\<rparr>
                 | None \<Rightarrow> st2);
          st4 = st3\<lparr>scannerRef := False\<rparr>;
          st5 = (case streamRef st4 of
                   Some mediaStream \<Rightarrow>
                     st4\<lparr>activeTracks := activeTracks st4 - set mediaStream,
                         streamRef := None\<rparr>
                 | None \<Rightarrow> st4)
      in st5\<lparr>scanning := False, error := None, success := False\<rparr>)"

subsection \<open>startScanning\<close>

text \<open>The message of the \<open>catch\<close> block, by the name and the text of what was thrown.\<close>

definition errorMessage :: "exception \<Rightarrow> userMessage" where
  "errorMessage err =
     (if name err = ''NotAllowedError'' then CameraPermissionRequired
      else if name err = ''NotFoundError'' then NoCameraFound
      else if name err = ''NotReadableError'' then CameraInUse
      else if message err \<noteq> [] \<and> str_includes (message err) ''Permission''
      then CheckBrowserPermission
      else if message err \<noteq> [] \<and> str_includes (message err) ''constraints''
      then CameraSettingsProblem
      else ScannerStartFailed)"

text \<open>
  The \<open>catch\<close> block. The render that follows shows the error in place of the video
  element, so the ref is null from then on.
\<close>

definition startFailed :: "exception \<Rightarrow> barcodeState \<Rightarrow> barcodeState" where
  "startFailed err st =
     st\<lparr>scanning := False, error := Some (errorMessage err), videoRef := False\<rparr>"

text \<open>
  What the host answers during one \<open>startScanning\<close>: whether \<open>window\<close> has a
  \<open>BarcodeDetector\<close>, how \<open>getUserMedia\<close> and \<open>video.play()\<close> settle, and how
  \<open>decodeFromVideoDevice\<close> settles (with the handle of the controls and the stream the
  decoder has opened). The two constructors are taken not to throw.
\<close>

record startHost =
  hasBarcodeDetector :: bool
  userMedia :: "exception + mediaStream"
  played :: "exception option"
  decoding :: "exception + nat \<times> mediaStream"

text \<open>
  \<open>startScanning\<close> of the render with constants \<open>snap\<close>. The awaits are taken to settle
  at once. On the native path the first \<open>scan\<close> is requested for the next frame; on the
  other path the decoder starts calling back. Both callbacks see \<open>snap\<close>.
\<close>

definition startScanning :: "snapshot \<Rightarrow> startHost \<Rightarrow> barcodeState \<Rightarrow> barcodeState" where
  "startScanning snap host st =
     (let st1 = st\<lparr>error := None, success := False, scanning := True,
                    lastDetectionTime := 0\<rparr>
      in if \<not> videoRef st1
         then startFailed \<lparr>name = ''Error'', message = ''Video element not found''\<rparr> st1
         else if hasBarcodeDetector host
         then (case userMedia host of
                 Inl err \<Rightarrow> startFailed err st1
               | Inr mediaStream \<Rightarrow>
                   (let st2 = st1\<lparr>streamRef := Some mediaStream,
                                  activeTracks := activeTracks st1 \<union> set mediaStream\<rparr>
                    in case played host of
                         Some err \<Rightarrow> startFailed err st2
                       | None \<Rightarrow>
                           requestAnimationFrame snap (st2\<lparr>barcodeDetectorRef := True\<rparr>)))
         else (let st2 = st1\<lparr>scannerRef := True\<rparr>
               in case decoding host of
                    Inl err \<Rightarrow> startFailed err st2
                  | Inr (controls, mediaStream) \<Rightarrow>
                      st2\<lparr>decoders := decoders st2 @ [(controls, snap, mediaStream)],
                          activeTracks := activeTracks st2 \<union> set mediaStream,
                          controlsRef := Some controls\<rparr>))"

subsection \<open>Detections\<close>

text \<open>
  The test and the three steps both back-ends share: \<open>lastDetectionTime\<close> is the constant
  of the render that made the callback.
\<close>

definition accept :: "snapshot \<Rightarrow> string \<Rightarrow> int \<Rightarrow> barcodeState \<Rightarrow> barcodeState" where
  "accept snap code now st =
     (if now - snapLastDetectionTime snap > 2000
      then st\<lparr>lastDetectionTime := now, success := True, timeouts := timeouts st @ [code]\<rparr>
      else st)"

text \<open>
  \<open>scan\<close> up to its \<open>await\<close>: the host runs the frame callback with handle \<open>h\<close>, if it
  is still waiting (a callback runs once). The result carries the constants of the
  callback when a \<open>detect\<close> call is now pending.
\<close>

definition scan_begin :: "nat \<Rightarrow> barcodeState \<Rightarrow> barcodeState \<times> snapshot option" where
  "scan_begin h st =
     (case map_of (frameCallbacks st) h of
        None \<Rightarrow> (st, None)
      | Some snap \<Rightarrow>
          (let st1 = st\<lparr>frameCallbacks := filter (\<lambda>(h', snap). h' \<noteq> h) (frameCallbacks st)\<rparr>
           in if \<not> barcodeDetectorRef st1 \<or> \<not> videoRef st1 then (st1, None)
              else (st1, Some snap)))"

text \<open>
  \<open>scan\<close> from the moment \<open>detect\<close> settles, with the raw values of the barcodes or
  what was thrown, and \<open>Date.now()\<close>. The \<open>catch\<close> only logs.
\<close>

definition scan_resume ::
  "snapshot \<Rightarrow> exception + string list \<Rightarrow> int \<Rightarrow> barcodeState \<Rightarrow> barcodeState" where
  "scan_resume snap detected now st =
     (let st1 = (case detected of
                   Inl err \<Rightarrow> st
                 | Inr barcodes \<Rightarrow>
                     (case barcodes of [] \<Rightarrow> st | code # _ \<Rightarrow> accept snap code now st))
      in if snapScanning snap then requestAnimationFrame snap st1 else st1)"

text \<open>
  The callback given to \<open>decodeFromVideoDevice\<close>, called by the decoder with handle \<open>c\<close>
  as long as it runs. An error is logged at most.
\<close>

definition decodeCallback :: "nat \<Rightarrow> string option \<Rightarrow> int \<Rightarrow> barcodeState \<Rightarrow> barcodeState" where
  "decodeCallback c result now st =
     (case map_of (decoders st) c of
        None \<Rightarrow> st
      | Some (snap, mediaStream) \<Rightarrow>
          (case result of None \<Rightarrow> st | Some txt \<Rightarrow> accept snap txt now st))"

text \<open>
  The oldest delivery timeout fires:
  \<^verbatim>\<open>stopScanning(); onDetected(code); onClose();\<close>
\<close>

definition timeoutFires :: "bool \<Rightarrow> barcodeState \<Rightarrow> barcodeState" where
  "timeoutFires stopThrows st =
     (case timeouts st of
        [] \<Rightarrow> st
      | code # rest \<Rightarrow>
          (stopScanning stopThrows (st\<lparr>timeouts := rest\<rparr>))
            \<lparr>calls := calls st @ [OnDetected code, OnClose]\<rparr>)"

subsection \<open>The effect on open\<close>

text \<open>
  When \<open>open\<close> turns true the content of the dialog is rendered, with the video element
  if \<open>error\<close> is null, and the effect starts the scanner, with the \<open>startScanning\<close> of the
  render the effect belongs to (the 100 ms in between are left out). When \<open>open\<close> turns
  false the cleanup of the previous run and the body both call \<open>stopScanning\<close>. The
  button of the error view calls the \<open>startScanning\<close> of the render that shows it.
\<close>

definition openEffect :: "startHost \<Rightarrow> barcodeState \<Rightarrow> barcodeState" where
  "openEffect host st = startScanning (render st) host (st\<lparr>videoRef := (error st = None)\<rparr>)"

definition retry :: "startHost \<Rightarrow> barcodeState \<Rightarrow> barcodeState" where
  "retry host st = startScanning (render st) host st"

definition closeEffect :: "barcodeState \<Rightarrow> barcodeState" where
  "closeEffect st = stopScanning False (stopScanning False st)"

text \<open>The component as mounted, with \<open>open\<close> false: nothing of the dialog is rendered.\<close>

definition mountedScanner :: barcodeState where
  "mountedScanner =
     \<lparr>scanning = False, error = None, success = False, lastDetectionTime = 0,
      scannerRef = False, barcodeDetectorRef = False, animationRef = None, videoRef = False,
      streamRef = None, controlsRef = None, activeTracks = {}, frameCallbacks = [],
      nextFrame = 1, decoders = [], timeouts = [], calls = []\<rparr>"

definition nativeHost :: startHost where
  "nativeHost = \<lparr>hasBarcodeDetector = True, userMedia = Inr [0], played = None,
                  decoding = Inr (0, [])\<rparr>"

definition decoderHost :: startHost where
  "decoderHost = \<lparr>hasBarcodeDetector = False, userMedia = Inr [0], played = None,
                   decoding = Inr (7, [0])\<rparr>"

section \<open>Properties of the date extraction\<close>

subsection \<open>What a match looks like\<close>

lemma attempt_SomeD:
  "attempt c k x i caps = Some res \<Longrightarrow>
     i + k \<le> length x \<and> list_all isDigit (take k (drop i x))
     \<and> c (i + k) (caps @ [take k (drop i x)]) = Some res"
  by (simp add: attempt_def split: if_splits)

lemma greedy_SomeD:
  "greedy c lo d x i caps = Some res \<Longrightarrow>
     \<exists>k. lo \<le> k \<and> k \<le> lo + d \<and> i + k \<le> length x
         \<and> list_all isDigit (take k (drop i x))
         \<and> c (i + k) (caps @ [take k (drop i x)]) = Some res"
proof (induction d)
  case 0
  then show ?case using attempt_SomeD [of c lo x i caps res] by auto
next
  case (Suc d)
  show ?case
  proof (cases "attempt c (lo + Suc d) x i caps")
    case None
    with Suc.prems have "greedy c lo d x i caps = Some res" by simp
    from Suc.IH [OF this] obtain k where "lo \<le> k" "k \<le> lo + d" "i + k \<le> length x"
      "list_all isDigit (take k (drop i x))" "c (i + k) (caps @ [take k (drop i x)]) = Some res"
      by blast
    then show ?thesis by (intro exI [of _ k]) simp
  next
    case (Some r)
    with Suc.prems have "attempt c (lo + Suc d) x i caps = Some res" by simp
    from attempt_SomeD [OF this] show ?thesis
      by (intro exI [of _ "lo + Suc d"]) simp
  qed
qed

lemma m_boundaryD:
  "m (WordBoundary # r) x i caps = Some res \<Longrightarrow> m r x i caps = Some res"
  by (simp split: if_splits)

lemma m_classD:
  "m (CharClass cs # r) x i caps = Some res \<Longrightarrow>
     i < length x \<and> x ! i \<in> set cs \<and> m r x (Suc i) caps = Some res"
  by (simp split: if_splits)

lemma m_groupD:
  "m (DigitsGroup lo hi # r) x i caps = Some res \<Longrightarrow>
     \<exists>k. lo \<le> k \<and> k \<le> hi \<and> i + k \<le> length x
         \<and> list_all isDigit (take k (drop i x))
         \<and> m r x (i + k) (caps @ [take k (drop i x)]) = Some res"
proof -
  assume a: "m (DigitsGroup lo hi # r) x i caps = Some res"
  then have le: "lo \<le> hi" and g: "greedy (m r x) lo (hi - lo) x i caps = Some res"
    by (simp_all split: if_splits)
  from greedy_SomeD [OF g] le show ?thesis by auto
qed


lemma m_three_groupsD:
  assumes r0: "m [WordBoundary, DigitsGroup a1 b1, CharClass s1, DigitsGroup a2 b2,
                  CharClass s2, DigitsGroup a3 b3, WordBoundary] x i [] = Some (e, caps)"
  shows "\<exists>g1 g2 g3. caps = [g1, g2, g3]
           \<and> a1 \<le> length g1 \<and> length g1 \<le> b1 \<and> list_all isDigit g1
           \<and> a2 \<le> length g2 \<and> length g2 \<le> b2 \<and> list_all isDigit g2
           \<and> a3 \<le> length g3 \<and> length g3 \<le> b3 \<and> list_all isDigit g3
           \<and> e = i + length g1 + length g2 + length g3 + 2 \<and> e \<le> length x"
proof -
  from m_groupD [OF m_boundaryD [OF r0]] obtain k1 where
    k1: "a1 \<le> k1" "k1 \<le> b1" "i + k1 \<le> length x" "list_all isDigit (take k1 (drop i x))"
    and r1: "m [CharClass s1, DigitsGroup a2 b2, CharClass s2, DigitsGroup a3 b3,
                WordBoundary] x (i + k1) ([] @ [take k1 (drop i x)]) = Some (e, caps)"
    by (elim exE conjE)
  define j where "j = Suc (i + k1)"
  define c1 where "c1 = [] @ [take k1 (drop i x)]"
  from m_classD [OF r1] have "m [DigitsGroup a2 b2, CharClass s2, DigitsGroup a3 b3,
                WordBoundary] x j c1 = Some (e, caps)"
    unfolding j_def c1_def by (elim conjE)
  from m_groupD [OF this] obtain k2 where
    k2: "a2 \<le> k2" "k2 \<le> b2" "j + k2 \<le> length x" "list_all isDigit (take k2 (drop j x))"
    and r2: "m [CharClass s2, DigitsGroup a3 b3, WordBoundary] x (j + k2)
               (c1 @ [take k2 (drop j x)]) = Some (e, caps)"
    by (elim exE conjE)
  define l where "l = Suc (j + k2)"
  define c2 where "c2 = c1 @ [take k2 (drop j x)]"
  from m_classD [OF r2] have "m [DigitsGroup a3 b3, WordBoundary] x l c2 = Some (e, caps)"
    unfolding l_def c2_def by (elim conjE)
  from m_groupD [OF this] obtain k3 where
    k3: "a3 \<le> k3" "k3 \<le> b3" "l + k3 \<le> length x" "list_all isDigit (take k3 (drop l x))"
    and r3: "m [WordBoundary] x (l + k3) (c2 @ [take k3 (drop l x)]) = Some (e, caps)"
    by (elim exE conjE)
  from m_boundaryD [OF r3] have "m [] x (l + k3) (c2 @ [take k3 (drop l x)]) = Some (e, caps)" .
  then have e: "e = l + k3" and caps: "caps = c2 @ [take k3 (drop l x)]"
    by simp_all
  define g1 where "g1 = take k1 (drop i x)"
  define g2 where "g2 = take k2 (drop j x)"
  define g3 where "g3 = take k3 (drop l x)"
  have caps': "caps = [g1, g2, g3]"
    by (simp add: caps c2_def c1_def g1_def g2_def g3_def)
  have len: "length g1 = k1" "length g2 = k2" "length g3 = k3"
    using k1(3) k2(3) k3(3) by (simp_all add: g1_def g2_def g3_def)
  have "e = i + length g1 + length g2 + length g3 + 2" and "e \<le> length x"
    using k3(3) by (simp_all add: len e l_def j_def)
  moreover have "list_all isDigit g1" "list_all isDigit g2" "list_all isDigit g3"
    using k1(4) k2(4) k3(4) by (simp_all add: g1_def g2_def g3_def)
  ultimately show ?thesis
    using caps' k1(1,2) k2(1,2) k3(1,2) len by blast
qed

lemma exec_SomeD:
  "exec ns x lastIndex = Some (match, e) \<Longrightarrow>
     \<exists>s caps. lastIndex \<le> s \<and> s \<le> length x \<and> m ns x s [] = Some (e, caps)
       \<and> match = take (e - s) (drop s x) # caps"
proof (induction ns x lastIndex rule: exec.induct)
  case (1 ns x lastIndex)
  from "1.prems" have le: "lastIndex \<le> length x"
    by (subst (asm) exec.simps) (simp split: if_splits)
  show ?case
  proof (cases "m ns x lastIndex []")
    case None
    with "1.prems" le have "exec ns x (Suc lastIndex) = Some (match, e)"
      by (subst (asm) exec.simps) simp
    from "1.IH" [OF _ None this] le obtain s caps where
      "Suc lastIndex \<le> s" "s \<le> length x" "m ns x s [] = Some (e, caps)"
      "match = take (e - s) (drop s x) # caps"
      by auto
    then show ?thesis by (intro exI [of _ s] exI [of _ caps]) simp
  next
    case (Some r)
    obtain e' caps where r: "r = (e', caps)" by (cases r)
    with Some "1.prems" le have "e = e'" "match = take (e - lastIndex) (drop lastIndex x) # caps"
      by (subst (asm) exec.simps; simp)+
    with Some r le show ?thesis by (intro exI [of _ lastIndex] exI [of _ caps]) simp
  qed
qed

lemma includes_dmy: "str_includes (source dmyPattern) src_d4"
  by (simp add: dmyPattern_def src_b_def src_d12_def src_d4_def src_sep_def)

lemma includes_ymd: "str_includes (source ymdPattern) src_d4"
  by (simp add: ymdPattern_def src_b_def src_d12_def src_d4_def src_sep_def)

lemma exec_dmyD:
  assumes "exec (nodes dmyPattern) x lastIndex = Some (match, e)"
  shows "\<exists>m0 g1 g2 g3. match = [m0, g1, g2, g3] \<and> 1 \<le> length g1 \<and> length g1 \<le> 2
           \<and> list_all isDigit g1 \<and> 1 \<le> length g2 \<and> length g2 \<le> 2 \<and> list_all isDigit g2
           \<and> length g3 = 4 \<and> list_all isDigit g3 \<and> lastIndex < e \<and> e \<le> length x"
proof -
  from exec_SomeD [OF assms] obtain s caps where
    s: "lastIndex \<le> s" and ms: "m (nodes dmyPattern) x s [] = Some (e, caps)"
    and match: "match = take (e - s) (drop s x) # caps"
    by blast
  have "nodes dmyPattern = [WordBoundary, DigitsGroup 1 2, CharClass separators,
          DigitsGroup 1 2, CharClass separators, DigitsGroup 4 4, WordBoundary]"
    by (simp add: dmyPattern_def)
  with ms have "m [WordBoundary, DigitsGroup 1 2, CharClass separators, DigitsGroup 1 2,
               CharClass separators, DigitsGroup 4 4, WordBoundary] x s [] = Some (e, caps)"
    by (simp only:)
  from m_three_groupsD [OF this] obtain g1 g2 g3 where
    "caps = [g1, g2, g3]" "1 \<le> length g1" "length g1 \<le> 2" "list_all isDigit g1"
    "1 \<le> length g2" "length g2 \<le> 2" "list_all isDigit g2"
    "4 \<le> length g3" "length g3 \<le> 4" "list_all isDigit g3"
    "e = s + length g1 + length g2 + length g3 + 2" "e \<le> length x"
    by (elim exE conjE)
  with s match show ?thesis
    by (intro exI [of _ "take (e - s) (drop s x)"] exI [of _ g1] exI [of _ g2] exI [of _ g3])
       simp
qed

lemma exec_ymdD:
  assumes "exec (nodes ymdPattern) x lastIndex = Some (match, e)"
  shows "\<exists>m0 g1 g2 g3. match = [m0, g1, g2, g3] \<and> length g1 = 4 \<and> list_all isDigit g1
           \<and> 1 \<le> length g2 \<and> length g2 \<le> 2 \<and> list_all isDigit g2
           \<and> 1 \<le> length g3 \<and> length g3 \<le> 2 \<and> list_all isDigit g3
           \<and> lastIndex < e \<and> e \<le> length x"
proof -
  from exec_SomeD [OF assms] obtain s caps where
    s: "lastIndex \<le> s" and ms: "m (nodes ymdPattern) x s [] = Some (e, caps)"
    and match: "match = take (e - s) (drop s x) # caps"
    by blast
  have "nodes ymdPattern = [WordBoundary, DigitsGroup 4 4, CharClass separators,
          DigitsGroup 1 2, CharClass separators, DigitsGroup 1 2, WordBoundary]"
    by (simp add: ymdPattern_def)
  with ms have "m [WordBoundary, DigitsGroup 4 4, CharClass separators, DigitsGroup 1 2,
               CharClass separators, DigitsGroup 1 2, WordBoundary] x s [] = Some (e, caps)"
    by (simp only:)
  from m_three_groupsD [OF this] obtain g1 g2 g3 where
    "caps = [g1, g2, g3]" "4 \<le> length g1" "length g1 \<le> 4" "list_all isDigit g1"
    "1 \<le> length g2" "length g2 \<le> 2" "list_all isDigit g2"
    "1 \<le> length g3" "length g3 \<le> 2" "list_all isDigit g3"
    "e = s + length g1 + length g2 + length g3 + 2" "e \<le> length x"
    by (elim exE conjE)
  with s match show ?thesis
    by (intro exI [of _ "take (e - s) (drop s x)"] exI [of _ g1] exI [of _ g2] exI [of _ g3])
       simp
qed


subsection \<open>The scan loops end, and what they collect\<close>

lemma dateStrOf_dmy:
  "dateStrOf dmyPattern [m0, g1, g2, g3] =
     Inr (g1 @ ''-'' @ padStart g2 2 ''0'' @ ''-'' @ padStart g3 2 ''0'')"
  by (simp add: dateStrOf_def includes_dmy)

lemma dateStrOf_ymd:
  "dateStrOf ymdPattern [m0, g1, g2, g3] =
     Inr (g1 @ ''-'' @ padStart g2 2 ''0'' @ ''-'' @ padStart g3 2 ''0'')"
  by (simp add: dateStrOf_def includes_ymd)

lemma padStart_two_digits:
  assumes "1 \<le> length g" "length g \<le> 2" "list_all isDigit g"
  shows "length (padStart g 2 ''0'') = 2 \<and> list_all isDigit (padStart g 2 ''0'')"
proof (cases "length g = 2")
  case True
  with assms show ?thesis by (simp add: padStart_def)
next
  case False
  with assms have "length g = 1" by simp
  with assms show ?thesis by (simp add: padStart_def isDigit_def)
qed

lemma dmyShape_assembled:
  assumes "list_all isDigit g1" "length mm = 2" "list_all isDigit mm"
    "length g3 = 4" "list_all isDigit g3"
  shows "dmyShape (length g1) (g1 @ ''-'' @ mm @ ''-'' @ g3)"
  using assms by (simp add: dmyShape_def nth_append)

lemma dmyForm_assembled:
  assumes "1 \<le> length g1" "length g1 \<le> 2" "list_all isDigit g1"
    "1 \<le> length g2" "length g2 \<le> 2" "list_all isDigit g2"
    "length g3 = 4" "list_all isDigit g3"
  shows "dmyForm (g1 @ ''-'' @ padStart g2 2 ''0'' @ ''-'' @ padStart g3 2 ''0'')"
proof -
  have g3: "padStart g3 2 ''0'' = g3"
    using assms(7) by (simp add: padStart_def)
  from padStart_two_digits [OF assms(4,5,6)]
  have "dmyShape (length g1) (g1 @ ''-'' @ padStart g2 2 ''0'' @ ''-'' @ g3)"
    using assms(3,7,8) by (intro dmyShape_assembled) simp_all
  moreover from assms(1,2) have "length g1 = 1 \<or> length g1 = 2" by auto
  ultimately show ?thesis
    unfolding dmyForm_def g3 by auto
qed

lemma dmyForm_not_startsWithYear: "dmyForm s \<Longrightarrow> \<not> startsWithYear s"
proof
  assume f: "dmyForm s" and y: "startsWithYear s"
  from f obtain k where k: "k = 1 \<or> k = 2" and sh: "dmyShape k s"
    by (auto simp: dmyForm_def)
  from sh have dash: "s ! k = CHR ''-''" by (simp add: dmyShape_def)
  from y have "4 \<le> length s" and "list_all isDigit (take 4 s)"
    by (simp_all add: startsWithYear_def)
  then have "isDigit (take 4 s ! k)"
    using k by (auto simp: list_all_length)
  with k dash show False by (auto simp: isDigit_def)
qed

lemma dmy_step:
  assumes "exec (nodes dmyPattern) text li = Some (match, e)"
  shows "li < e \<and> e \<le> length text \<and> (\<exists>s. dateStrOf dmyPattern match = Inr s \<and> dmyForm s)"
proof -
  from exec_dmyD [OF assms] obtain m0 g1 g2 g3 where
    match: "match = [m0, g1, g2, g3]"
    and g: "1 \<le> length g1" "length g1 \<le> 2" "list_all isDigit g1"
      "1 \<le> length g2" "length g2 \<le> 2" "list_all isDigit g2"
      "length g3 = 4" "list_all isDigit g3"
    and lt: "li < e" "e \<le> length text"
    by blast
  from dmyForm_assembled [OF g] lt show ?thesis
    by (simp add: match dateStrOf_dmy)
qed

lemma ymd_step:
  assumes "exec (nodes ymdPattern) text li = Some (match, e)"
  shows "li < e \<and> e \<le> length text \<and> (\<exists>s. dateStrOf ymdPattern match = Inr s \<and> True)"
proof -
  from exec_ymdD [OF assms] obtain m0 g1 g2 g3 where
    "match = [m0, g1, g2, g3]" "li < e" "e \<le> length text"
    by blast
  then show ?thesis by (simp add: dateStrOf_ymd)
qed

lemma scanMatches_filter:
  assumes step: "\<And>li match e. exec (nodes p) text li = Some (match, e) \<Longrightarrow>
                   li < e \<and> e \<le> length text \<and> (\<exists>s. dateStrOf p match = Inr s \<and> Q s)"
  shows "\<exists>cands. (\<forall>s\<in>set cands. Q s)
           \<and> (\<forall>D fd. scanMatches D p text li fd
                        = Some (Inr (fd @ filter (validDate D) cands)))"
proof (induction "Suc (length text) - li" arbitrary: li rule: less_induct)
  case less
  show ?case
  proof (cases "exec (nodes p) text li")
    case None
    have "scanMatches D p text li fd = Some (Inr (fd @ filter (validDate D) []))" for D fd
      by (subst scanMatches.simps) (simp add: None)
    then show ?thesis by (intro exI [of _ "[]"]) simp
  next
    case (Some r)
    obtain match e where r: "r = (match, e)" by (cases r)
    from step [of li match e] Some r obtain s where
      lt: "li < e" "e \<le> length text" and s: "dateStrOf p match = Inr s" "Q s"
      by auto
    have "Suc (length text) - e < Suc (length text) - li"
      using lt by simp
    from less.hyps [OF this] obtain cands where
      q: "\<forall>s\<in>set cands. Q s"
      and run: "\<And>D fd. scanMatches D p text e fd
                         = Some (Inr (fd @ filter (validDate D) cands))"
      by blast
    have "scanMatches D p text li fd = Some (Inr (fd @ filter (validDate D) (s # cands)))"
      for D fd
    proof -
      have "scanMatches D p text li fd = scanMatches D p text e (pushIfValid D s fd)"
        by (subst scanMatches.simps) (simp add: Some r s)
      also have "\<dots> = Some (Inr (pushIfValid D s fd @ filter (validDate D) cands))"
        by (rule run)
      finally show ?thesis by (simp add: pushIfValid_def)
    qed
    with q s(2) show ?thesis by (intro exI [of _ "s # cands"]) simp
  qed
qed

lemma validDate_everyDate: "validDate everyDate s"
  by (simp add: validDate_def everyDate_def)

lemma filter_everyDate: "filter (validDate everyDate) cands = cands"
  by (simp add: validDate_everyDate)

lemma scan_dmy_filter:
  "\<exists>cands. (\<forall>s\<in>set cands. dmyForm s)
     \<and> (\<forall>D fd. scanMatches D dmyPattern text li fd
                  = Some (Inr (fd @ filter (validDate D) cands)))"
  by (rule scanMatches_filter) (rule dmy_step)

lemma scan_ymd_filter:
  "\<exists>cands. (\<forall>s\<in>set cands. True)
     \<and> (\<forall>D fd. scanMatches D ymdPattern text li fd
                  = Some (Inr (fd @ filter (validDate D) cands)))"
  by (rule scanMatches_filter) (rule ymd_step)

lemma extractDates_filter:
  "\<exists>dmys ymds. (\<forall>s\<in>set dmys. dmyForm s)
     \<and> (\<forall>D. scanMatches D dmyPattern text 0 [] = Some (Inr (filter (validDate D) dmys)))
     \<and> (\<forall>D fd. scanMatches D ymdPattern text 0 fd
                  = Some (Inr (fd @ filter (validDate D) ymds)))
     \<and> (\<forall>D. extractDates D text = Some (Inr (filter (validDate D) (dmys @ ymds))))"
proof -
  from scan_dmy_filter [of "text" 0] obtain dmys where
    f: "\<forall>s\<in>set dmys. dmyForm s"
    and a: "\<And>D fd. scanMatches D dmyPattern text 0 fd
                       = Some (Inr (fd @ filter (validDate D) dmys))"
    by blast
  from scan_ymd_filter [of "text" 0] obtain ymds where
    b: "\<And>D fd. scanMatches D ymdPattern text 0 fd
                   = Some (Inr (fd @ filter (validDate D) ymds))"
    by blast
  have "extractDates D text = Some (Inr (filter (validDate D) (dmys @ ymds)))" for D
    by (simp add: extractDates_def datePatterns_def a b)
  with f a [of _ "[]"] b show ?thesis
    by (intro exI [of _ dmys] exI [of _ ymds]) simp
qed

lemma deliver_subset: "OnDetected d \<in> set (deliver foundDates) \<Longrightarrow> d \<in> set foundDates"
  by (cases foundDates; cases "tl foundDates") (auto simp: deliver_def split: list.splits)

subsection \<open>The claims on the extraction\<close>

text \<open>
  C1. On the recognised text \<open>best before 31-12-2025\<close> the claim has the match assembled
  year first and \<open>2025-12-31\<close> delivered through \<open>onDetected\<close>. The code tests the source
  of the pattern for \<open>(\d{4})\<close>, which both sources contain, so the match is assembled in
  the order of its groups, as \<open>31-12-2025\<close>. Whatever the host's \<open>Date\<close> makes of that
  string, the call ends with the toast for no valid date or delivers \<open>31-12-2025\<close>; it
  never delivers \<open>2025-12-31\<close>. With \<open>hostDate\<close> the string is an invalid date.
\<close>

theorem C1_best_before_not_reordered:
  "map_option events
     (captureAndScan D True True True (Inr ''best before 31-12-2025'') cameraOn)
     = Some (deliver (pushIfValid D ''31-12-2025'' []))
   \<and> OnDetected ''2025-12-31'' \<notin> set (deliver (pushIfValid D ''31-12-2025'' []))
   \<and> map_option events
     (captureAndScan hostDate True True True (Inr ''best before 31-12-2025'') cameraOn)
     = Some [Toast NoValidDate]"
proof (intro conjI)
  show "map_option events
     (captureAndScan D True True True (Inr ''best before 31-12-2025'') cameraOn)
     = Some (deliver (pushIfValid D ''31-12-2025'' []))"
    by code_simp
  show "OnDetected ''2025-12-31'' \<notin> set (deliver (pushIfValid D ''31-12-2025'' []))"
    by (simp add: deliver_def pushIfValid_def)
  show "map_option events
     (captureAndScan hostDate True True True (Inr ''best before 31-12-2025'') cameraOn)
     = Some [Toast NoValidDate]"
    by code_simp
qed

text \<open>
  C2. On \<open>exp 01/02/2030 also 2031-03-04\<close> the claim has \<open>2030-02-01\<close> delivered. The
  day-month-year match comes first in scan order, but it is assembled as \<open>01-02-2030\<close>:
  what is delivered is the first of \<open>01-02-2030\<close> and \<open>2031-03-04\<close> that the host takes
  for a date of a year between 2020 and 2050, and never \<open>2030-02-01\<close>. With \<open>hostDate\<close>
  it is \<open>01-02-2030\<close>.
\<close>

theorem C2_first_match_not_reordered:
  "map_option events
     (captureAndScan D True True True (Inr ''exp 01/02/2030 also 2031-03-04'') cameraOn)
     = Some (deliver (pushIfValid D ''2031-03-04'' (pushIfValid D ''01-02-2030'' [])))
   \<and> OnDetected ''2030-02-01''
       \<notin> set (deliver (pushIfValid D ''2031-03-04'' (pushIfValid D ''01-02-2030'' [])))
   \<and> map_option events
     (captureAndScan hostDate True True True (Inr ''exp 01/02/2030 also 2031-03-04'')
        cameraOn)
     = Some [OnDetected ''01-02-2030'', OnClose, Toast (SeveralDates ''01-02-2030'')]"
proof (intro conjI)
  show "map_option events
     (captureAndScan D True True True (Inr ''exp 01/02/2030 also 2031-03-04'') cameraOn)
     = Some (deliver (pushIfValid D ''2031-03-04'' (pushIfValid D ''01-02-2030'' [])))"
    by code_simp
  show "OnDetected ''2030-02-01''
       \<notin> set (deliver (pushIfValid D ''2031-03-04'' (pushIfValid D ''01-02-2030'' [])))"
    by (simp add: deliver_def pushIfValid_def)
  show "map_option events
     (captureAndScan hostDate True True True (Inr ''exp 01/02/2030 also 2031-03-04'')
        cameraOn)
     = Some [OnDetected ''01-02-2030'', OnClose, Toast (SeveralDates ''01-02-2030'')]"
    by code_simp
qed

text \<open>
  Two texts on which a string is delivered that is no date of a year between 2020 and
  2050. \<open>hostDate\<close> reads \<open>2025-02-30\<close> as the second of March 2025, so the thirtieth
  of February passes the test and is delivered as it stands. The match \<open>01/02/0030\<close> is
  assembled as \<open>01-02-0030\<close>, which \<open>hostDate\<close> reads as the second of January 2030.
\<close>

theorem C6_counterexample:
  "map_option events (captureAndScan_resume hostDate (Inr ''use by 2025-02-30'') cameraOn)
     = Some [OnDetected ''2025-02-30'', OnClose, Toast (DateScanned ''2025-02-30'')]
   \<and> map_option events (captureAndScan_resume hostDate (Inr ''exp 01/02/0030'') cameraOn)
     = Some [OnDetected ''01-02-0030'', OnClose, Toast (DateScanned ''01-02-0030'')]"
  by (intro conjI; code_simp)

text \<open>
  C6, as amended. For every host and every recognised text the scan ends, and
  \<open>foundDates\<close> holds, in scan order, exactly those assembled strings for which the
  host's \<open>new Date\<close> gives a valid date whose \<open>getFullYear()\<close> lies strictly between 2020
  and 2050; every other assembled string is left out. Validity and year are what the
  host reads from the assembled string. What \<open>onDetected\<close> receives is one of the strings
  kept.
\<close>

theorem C6_kept_as_host_reads:
  "\<exists>assembled. extractDates everyDate text = Some (Inr assembled)
     \<and> extractDates D text = Some (Inr (filter (validDate D) assembled))
     \<and> captureAndScan_resume D (Inr text) st
         = Some ((emit (deliver (filter (validDate D) assembled)) st)\<lparr>isScanning := False\<rparr>)
     \<and> (\<forall>d. OnDetected d \<in> set (deliver (filter (validDate D) assembled))
            \<longrightarrow> d \<in> set assembled \<and> (\<exists>y. D d = Some y \<and> 2020 < y \<and> y < 2050))"
proof -
  from extractDates_filter [of "text"] obtain dmys ymds where
    ex: "\<And>D. extractDates D text = Some (Inr (filter (validDate D) (dmys @ ymds)))"
    by blast
  have a: "extractDates everyDate text = Some (Inr (dmys @ ymds))"
    using ex [of everyDate] by (simp only: filter_everyDate)
  have b: "captureAndScan_resume D (Inr text) st
         = Some ((emit (deliver (filter (validDate D) (dmys @ ymds))) st)\<lparr>isScanning := False\<rparr>)"
    by (simp add: captureAndScan_resume_def ex)
  have c: "d \<in> set (dmys @ ymds) \<and> (\<exists>y. D d = Some y \<and> 2020 < y \<and> y < 2050)"
    if "OnDetected d \<in> set (deliver (filter (validDate D) (dmys @ ymds)))" for d
  proof -
    from deliver_subset [OF that] have "d \<in> set (dmys @ ymds)" and "validDate D d"
      by auto
    then show ?thesis
      by (auto simp: validDate_def split: option.splits)
  qed
  from a ex [of D] b c show ?thesis
    by (intro exI [of _ "dmys @ ymds"]) blast
qed

theorem C6_kept_as_host_reads_witness:
  "extractDates everyDate ''exp 01/02/2019 2051-01-01 2031-03-04''
     = Some (Inr [''01-02-2019'', ''2051-01-01'', ''2031-03-04''])
   \<and> extractDates hostDate ''exp 01/02/2019 2051-01-01 2031-03-04''
     = Some (Inr [''2031-03-04''])
   \<and> map_option events
        (captureAndScan_resume hostDate (Inr ''exp 01/02/2019 2051-01-01 2031-03-04'') cameraOn)
       = Some [OnDetected ''2031-03-04'', OnClose, Toast (DateScanned ''2031-03-04'')]
   \<and> (\<exists>y. hostDate ''2031-03-04'' = Some y \<and> 2020 < y \<and> y < 2050)"
proof -
  have ex: "extractDates everyDate ''exp 01/02/2019 2051-01-01 2031-03-04''
              = Some (Inr [''01-02-2019'', ''2051-01-01'', ''2031-03-04''])"
    by code_simp
  have fl: "filter (validDate hostDate) [''01-02-2019'', ''2051-01-01'', ''2031-03-04'']
              = [''2031-03-04'']"
    by code_simp
  have ev: "events cameraOn = []"
    by code_simp
  from C6_kept_as_host_reads
         [of "''exp 01/02/2019 2051-01-01 2031-03-04''" hostDate cameraOn]
  obtain assembled where
    a: "extractDates everyDate ''exp 01/02/2019 2051-01-01 2031-03-04'' = Some (Inr assembled)"
    and f: "extractDates hostDate ''exp 01/02/2019 2051-01-01 2031-03-04''
              = Some (Inr (filter (validDate hostDate) assembled))"
    and r: "captureAndScan_resume hostDate (Inr ''exp 01/02/2019 2051-01-01 2031-03-04'')
              cameraOn
            = Some ((emit (deliver (filter (validDate hostDate) assembled)) cameraOn)
                     \<lparr>isScanning := False\<rparr>)"
    and v: "\<forall>d. OnDetected d \<in> set (deliver (filter (validDate hostDate) assembled))
            \<longrightarrow> d \<in> set assembled \<and> (\<exists>y. hostDate d = Some y \<and> 2020 < y \<and> y < 2050)"
    by blast
  from a ex have asm: "assembled = [''01-02-2019'', ''2051-01-01'', ''2031-03-04'']"
    by simp
  have d: "deliver [''2031-03-04'']
             = [OnDetected ''2031-03-04'', OnClose, Toast (DateScanned ''2031-03-04'')]"
    by (simp add: deliver_def)
  from v have "\<exists>y. hostDate ''2031-03-04'' = Some y \<and> 2020 < y \<and> y < 2050"
    unfolding asm fl d by simp
  with ex f r show ?thesis
    unfolding asm fl d by (simp add: emit_def ev)
qed

text \<open>
  A day-month-year match that is delivered: with \<open>hostDate\<close>, whose fallback reads
  \<open>01-02-2030\<close> as the second of January 2030, the text \<open>exp 01/02/2030\<close> has no
  year-month-day match at all, and the string pushed by the day-month-year pattern is
  handed to \<open>onDetected\<close>.
\<close>

theorem C10_counterexample:
  "map_option events
     (captureAndScan hostDate True True True (Inr ''exp 01/02/2030'') cameraOn)
     = Some [OnDetected ''01-02-2030'', OnClose, Toast (DateScanned ''01-02-2030'')]
   \<and> scanMatches hostDate dmyPattern ''exp 01/02/2030'' 0 [] = Some (Inr [''01-02-2030''])
   \<and> scanMatches hostDate ymdPattern ''exp 01/02/2030'' 0 [] = Some (Inr [])"
  by (intro conjI; code_simp)

text \<open>
  C10, as amended. The source of either pattern contains \<open>(\d{4})\<close>, so every match is
  assembled in the order of its groups and a day-month-year match is never turned year
  first: the string it gives has the form of one or two digits, a dash, two digits, a
  dash and four digits. Such a string is pushed exactly when the host's \<open>Date\<close> reads it
  as a valid date of a year strictly between 2020 and 2050. So on every host for which no
  string of that form passes the test, the day-month-year pattern pushes nothing and
  every date of the outcome comes from the year-month-day pattern.
\<close>

theorem C10_dmy_never_reordered:
  "str_includes (source dmyPattern) src_d4 \<and> str_includes (source ymdPattern) src_d4
   \<and> (\<exists>dmys. scanMatches everyDate dmyPattern text 0 [] = Some (Inr dmys)
         \<and> (\<forall>s\<in>set dmys. dmyForm s)
         \<and> scanMatches D dmyPattern text 0 [] = Some (Inr (filter (validDate D) dmys))
         \<and> extractDates D text
             = scanMatches D ymdPattern text 0 (filter (validDate D) dmys))
   \<and> ((\<forall>s. dmyForm s \<longrightarrow> \<not> validDate D s)
        \<longrightarrow> scanMatches D dmyPattern text 0 [] = Some (Inr [])
            \<and> extractDates D text = scanMatches D ymdPattern text 0 [])"
proof -
  from extractDates_filter [of "text"] obtain dmys ymds where
    f: "\<forall>s\<in>set dmys. dmyForm s"
    and a: "\<And>D. scanMatches D dmyPattern text 0 [] = Some (Inr (filter (validDate D) dmys))"
    and b: "\<And>D fd. scanMatches D ymdPattern text 0 fd
                       = Some (Inr (fd @ filter (validDate D) ymds))"
    and ex: "\<And>D. extractDates D text = Some (Inr (filter (validDate D) (dmys @ ymds)))"
    by blast
  have e: "scanMatches everyDate dmyPattern text 0 [] = Some (Inr dmys)"
    using a [of everyDate] by (simp only: filter_everyDate)
  have x: "extractDates D text = scanMatches D ymdPattern text 0 (filter (validDate D) dmys)"
    by (simp add: ex b)
  have "filter (validDate D) dmys = []" if "\<forall>s. dmyForm s \<longrightarrow> \<not> validDate D s"
    using that f by (simp add: filter_empty_conv)
  with a [of D] x have
    "(\<forall>s. dmyForm s \<longrightarrow> \<not> validDate D s)
        \<longrightarrow> scanMatches D dmyPattern text 0 [] = Some (Inr [])
            \<and> extractDates D text = scanMatches D ymdPattern text 0 []"
    by simp
  with includes_dmy includes_ymd e f a [of D] x show ?thesis
    by blast
qed

theorem C10_dmy_never_reordered_witness:
  "scanMatches everyDate dmyPattern ''exp 01/02/2030 also 2031-03-04'' 0 []
     = Some (Inr [''01-02-2030''])
   \<and> dmyForm ''01-02-2030''
   \<and> scanMatches yearFirstOnly dmyPattern ''exp 01/02/2030 also 2031-03-04'' 0 []
       = Some (Inr [])
   \<and> extractDates yearFirstOnly ''exp 01/02/2030 also 2031-03-04''
       = Some (Inr [''2031-03-04''])"
proof -
  have h: "\<forall>s. dmyForm s \<longrightarrow> \<not> validDate yearFirstOnly s"
    using dmyForm_not_startsWithYear by (simp add: validDate_def yearFirstOnly_def)
  have ev: "scanMatches everyDate dmyPattern ''exp 01/02/2030 also 2031-03-04'' 0 []
              = Some (Inr [''01-02-2030''])"
    by code_simp
  have ym: "scanMatches yearFirstOnly ymdPattern ''exp 01/02/2030 also 2031-03-04'' 0 []
              = Some (Inr [''2031-03-04''])"
    by code_simp
  note t = C10_dmy_never_reordered [of "''exp 01/02/2030 also 2031-03-04''" yearFirstOnly]
  from t obtain dmys where
    d: "scanMatches everyDate dmyPattern ''exp 01/02/2030 also 2031-03-04'' 0 []
          = Some (Inr dmys)"
    and f: "\<forall>s\<in>set dmys. dmyForm s"
    by blast
  from d ev have "dmys = [''01-02-2030'']" by simp
  with f have "dmyForm ''01-02-2030''" by simp
  moreover from t h have
    "scanMatches yearFirstOnly dmyPattern ''exp 01/02/2030 also 2031-03-04'' 0 []
       = Some (Inr [])"
    "extractDates yearFirstOnly ''exp 01/02/2030 also 2031-03-04''
       = scanMatches yearFirstOnly ymdPattern ''exp 01/02/2030 also 2031-03-04'' 0 []"
    by blast+
  ultimately show ?thesis
    using ev ym by simp
qed

section \<open>Properties of the two dialogs\<close>

subsection \<open>The expiry-date dialog around a recognition request\<close>

lemma closeDialog_events: "events (closeDialog c st) = events st"
  by (simp add: closeDialog_def stopCamera_def split: option.splits)

lemma closeDialog_releases:
  "stream (closeDialog c st) = None
   \<and> liveTracks (closeDialog c st)
       = liveTracks st - (case c of None \<Rightarrow> {} | Some mediaStream \<Rightarrow> set mediaStream)
           - (case stream st of None \<Rightarrow> {} | Some mediaStream \<Rightarrow> set mediaStream)"
  by (auto simp: closeDialog_def stopCamera_def split: option.splits)

lemma captureAndScan_clears_isScanning:
  "captureAndScan D True True True recognized st = Some st' \<Longrightarrow> \<not> isScanning st'"
  by (auto simp: captureAndScan_def captureAndScan_begin_def captureAndScan_resume_def
           split: sum.splits option.splits)

text \<open>
  The dialog is closed while a recognition request is pending, the camera is released, and
  the request then resolves with \<open>2031-03-04\<close>: \<open>onDetected\<close> is called.
\<close>

theorem C5_counterexample:
  "snd (captureAndScan_begin True True True cameraOn)
   \<and> stream (closeDialog None (fst (captureAndScan_begin True True True cameraOn))) = None
   \<and> map_option events
       (captureAndScan_resume hostDate (Inr ''2031-03-04'')
          (closeDialog None (fst (captureAndScan_begin True True True cameraOn))))
     = Some [OnDetected ''2031-03-04'', OnClose, Toast (DateScanned ''2031-03-04'')]"
  by (intro conjI; code_simp)

text \<open>
  C5, as amended. Closing the dialog releases the camera: the cell is cleared and the
  tracks of the stream it held are stopped. Nothing cancels a pending recognition request
  or marks it stale. When the request resolves after the dialog was closed, the rest of
  \<open>captureAndScan\<close> runs as it does with the dialog open: the dates are extracted from the
  recognised text, the calls and toasts of the outcome are made (with at least one valid
  date, \<open>onDetected\<close> with the first and then \<open>onClose\<close>), \<open>isScanning\<close> is cleared, and
  the camera stays released.
\<close>

theorem C5_resolves_after_close:
  "\<exists>foundDates. extractDates D text = Some (Inr foundDates)
     \<and> map_option events (captureAndScan_resume D (Inr text) (closeDialog c st))
         = Some (events st @ deliver foundDates)
     \<and> map_option events (captureAndScan_resume D (Inr text) st)
         = Some (events st @ deliver foundDates)
     \<and> map_option isScanning (captureAndScan_resume D (Inr text) (closeDialog c st))
         = Some False
     \<and> stream (closeDialog c st) = None
     \<and> liveTracks (closeDialog c st)
         = liveTracks st - (case c of None \<Rightarrow> {} | Some mediaStream \<Rightarrow> set mediaStream)
             - (case stream st of None \<Rightarrow> {} | Some mediaStream \<Rightarrow> set mediaStream)
     \<and> map_option stream (captureAndScan_resume D (Inr text) (closeDialog c st))
         = Some None
     \<and> map_option liveTracks (captureAndScan_resume D (Inr text) (closeDialog c st))
         = Some (liveTracks (closeDialog c st))
     \<and> take 2 (deliver (d # ds)) = [OnDetected d, OnClose]"
proof -
  from extractDates_filter [of "text"] obtain foundDates where
    ex: "extractDates D text = Some (Inr foundDates)"
    by blast
  have "take 2 (deliver (d # ds)) = [OnDetected d, OnClose]"
    by (cases ds) (simp_all add: deliver_def)
  with ex closeDialog_releases [of c st] show ?thesis
    by (simp add: captureAndScan_resume_def emit_def closeDialog_events)
qed

text \<open>
  C7. The claim has \<open>isScanning\<close> cleared on every exit path of \<open>captureAndScan\<close>. The
  paths through the \<open>try\<close> block clear it in the \<open>finally\<close>
  (\<open>captureAndScan_clears_isScanning\<close>). The return taken when the canvas gives no 2d
  context comes after \<open>setIsScanning(true)\<close> and before the \<open>try\<close>: the call ends with
  \<open>isScanning\<close> set, whatever it was before.
\<close>

theorem C7_no_context_leaves_isScanning:
  "captureAndScan D True True False recognized st = Some (st\<lparr>isScanning := True\<rparr>)
   \<and> map_option isScanning
        (captureAndScan hostDate True True False (Inr ''2031-03-04'') cameraOn) = Some True"
  by (simp add: captureAndScan_def captureAndScan_begin_def)

subsection \<open>Teardown\<close>

text \<open>
  \<open>stopCamera\<close> itself is idempotent, and with the handle in hand it stops every track
  and clears the cell. With the \<open>stream\<close> of a render in which the camera was not yet on
  it does nothing.
\<close>

lemma stopCamera_idem: "stopCamera c (stopCamera c es) = stopCamera c es"
  by (simp add: stopCamera_def split: option.splits)

lemma stopCamera_releases:
  "stream (stopCamera (Some mediaStream) es) = None
   \<and> liveTracks (stopCamera (Some mediaStream) es) \<inter> set mediaStream = {}"
  by (auto simp: stopCamera_def)

lemma stopCamera_stale: "stopCamera None es = es"
  by (simp add: stopCamera_def)

text \<open>
  C9. The claim has teardown leave no active stream and, if a handle is held, stop every
  track and clear the handle, in both dialogs. In the expiry-date dialog the cleanup of
  the effect is the \<open>stopCamera\<close> of the render in which \<open>open\<close> turned true, and that
  render bound \<open>stream\<close> to null: the camera was started after it. When the component is
  unmounted with the dialog open, the cleanup is the only teardown that runs; called once
  or twice in a row it changes nothing, the cell still holds the handle and its track is
  still running. The barcode dialog keeps the handle in a ref and does release it
  (\<open>stopScanning_releases\<close>).
\<close>

theorem C9_unmount_leaves_camera_on:
  "stream mounted = None \<and> stream cameraOn = Some [0] \<and> liveTracks cameraOn = {0}
   \<and> unmountDialog (stream mounted) cameraOn = cameraOn
   \<and> stopCamera (stream mounted) (stopCamera (stream mounted) cameraOn) = cameraOn
   \<and> stream (unmountDialog (stream mounted) cameraOn) = Some [0]
   \<and> liveTracks (unmountDialog (stream mounted) cameraOn) = {0}"
  by (simp add: mounted_def cameraOn_def startCamera_def unmountDialog_def stopCamera_def)

text \<open>
  \<open>stopScanning\<close>: what it leaves behind, that a second call changes nothing, and that
  with \<open>controls.stop()\<close> returning no track of the stream held or of the decoder stays
  running.
\<close>

lemma stopScanning_fixed:
  assumes "animationRef s = None \<or> animationRef s = Some 0" "controlsRef s = None"
    "streamRef s = None" "\<not> barcodeDetectorRef s" "\<not> scannerRef s" "\<not> scanning s"
    "error s = None" "\<not> success s"
  shows "stopScanning t s = s"
proof -
  have 1: "(case animationRef s of
              Some h \<Rightarrow> if h \<noteq> 0 then (cancelAnimationFrame h s)\<lparr>animationRef := None\<rparr> else s
            | None \<Rightarrow> s) = s"
    using assms(1) by auto
  have 2: "s\<lparr>barcodeDetectorRef := False\<rparr> = s"
    using assms(4) by (cases s) simp
  have 4: "s\<lparr>scannerRef := False\<rparr> = s"
    using assms(5) by (cases s) simp
  have 6: "s\<lparr>scanning := False, error := None, success := False\<rparr> = s"
    using assms(6,7,8) by (cases s) simp
  show ?thesis
    unfolding stopScanning_def Let_def 1 2
    by (simp only: assms(2) assms(3) option.case 4 6)
qed

lemma stopScanning_result:
  "(animationRef (stopScanning t st) = None \<or> animationRef (stopScanning t st) = Some 0)
   \<and> controlsRef (stopScanning t st) = None \<and> streamRef (stopScanning t st) = None
   \<and> \<not> barcodeDetectorRef (stopScanning t st) \<and> \<not> scannerRef (stopScanning t st)
   \<and> \<not> scanning (stopScanning t st) \<and> error (stopScanning t st) = None
   \<and> \<not> success (stopScanning t st)
   \<and> activeTracks (stopScanning t st)
        = activeTracks st
            - (case controlsRef st of
                 None \<Rightarrow> {} | Some c \<Rightarrow> if t then {} else decoderTracks st c)
            - (case streamRef st of None \<Rightarrow> {} | Some ms \<Rightarrow> set ms)
   \<and> decoders (stopScanning t st)
        = (case controlsRef st of
             None \<Rightarrow> decoders st
           | Some c \<Rightarrow> if t then decoders st
                       else filter (\<lambda>(c', d). c' \<noteq> c) (decoders st))"
proof -
  define st1 where "st1 = (case animationRef st of
                   Some h \<Rightarrow> if h \<noteq> 0 then (cancelAnimationFrame h st)\<lparr>animationRef := None\<rparr>
                             else st
                 | None \<Rightarrow> st)"
  define st2 where "st2 = st1\<lparr>barcodeDetectorRef := False\<rparr>"
  define st3 where "st3 = (case controlsRef st2 of
                   Some c \<Rightarrow>
                     (if t then st2 else controlsStop c st2)\<lparr>controlsRef := None\<rparr>
                 | None \<Rightarrow> st2)"
  define st4 where "st4 = st3\<lparr>scannerRef := False\<rparr>"
  define st5 where "st5 = (case streamRef st4 of
                   Some mediaStream \<Rightarrow>
                     st4\<lparr>activeTracks := activeTracks st4 - set mediaStream,
                         streamRef := None\<rparr>
                 | None \<Rightarrow> st4)"
  have eq: "stopScanning t st = st5\<lparr>scanning := False, error := None, success := False\<rparr>"
    unfolding stopScanning_def Let_def st5_def st4_def st3_def st2_def st1_def ..
  have a1: "animationRef st1 = None \<or> animationRef st1 = Some 0"
    and s1: "streamRef st1 = streamRef st" and t1: "activeTracks st1 = activeTracks st"
    and c1: "controlsRef st1 = controlsRef st" and d1: "decoders st1 = decoders st"
    unfolding st1_def by (auto simp: cancelAnimationFrame_def split: option.splits)
  have a2: "animationRef st2 = animationRef st1" and s2: "streamRef st2 = streamRef st1"
    and t2: "activeTracks st2 = activeTracks st1" and b2: "\<not> barcodeDetectorRef st2"
    and c2: "controlsRef st2 = controlsRef st1" and d2: "decoders st2 = decoders st1"
    unfolding st2_def by simp_all
  have dt: "decoderTracks st2 c = decoderTracks st c" for c
    by (simp add: decoderTracks_def d1 d2)
  have a3: "animationRef st3 = animationRef st2" and s3: "streamRef st3 = streamRef st2"
    and t3: "activeTracks st3
               = activeTracks st2
                   - (case controlsRef st2 of
                        None \<Rightarrow> {} | Some c \<Rightarrow> if t then {} else decoderTracks st2 c)"
    and d3: "decoders st3
               = (case controlsRef st2 of
                    None \<Rightarrow> decoders st2
                  | Some c \<Rightarrow> if t then decoders st2
                              else filter (\<lambda>(c', d). c' \<noteq> c) (decoders st2))"
    and b3: "barcodeDetectorRef st3 = barcodeDetectorRef st2" and c3: "controlsRef st3 = None"
    unfolding st3_def by (simp_all add: controlsStop_def split: option.splits)
  have a4: "animationRef st4 = animationRef st3" and s4: "streamRef st4 = streamRef st3"
    and t4: "activeTracks st4 = activeTracks st3" and d4: "decoders st4 = decoders st3"
    and b4: "barcodeDetectorRef st4 = barcodeDetectorRef st3"
    and c4: "controlsRef st4 = controlsRef st3" and r4: "\<not> scannerRef st4"
    unfolding st4_def by simp_all
  have a5: "animationRef st5 = animationRef st4" and s5: "streamRef st5 = None"
    and t5: "activeTracks st5
               = activeTracks st4 - (case streamRef st4 of None \<Rightarrow> {} | Some ms \<Rightarrow> set ms)"
    and d5: "decoders st5 = decoders st4"
    and b5: "barcodeDetectorRef st5 = barcodeDetectorRef st4"
    and c5: "controlsRef st5 = controlsRef st4" and r5: "scannerRef st5 = scannerRef st4"
    unfolding st5_def by (simp_all split: option.splits)
  show ?thesis
    unfolding eq
    using a1 by (simp add: a2 a3 a4 a5 s1 s2 s3 s4 s5 t1 t2 t3 t4 t5 b2 b3 b4 b5 c1 c2 c3 c4 c5
                            d1 d2 d3 d4 d5 dt r4 r5 split: option.splits)
qed

lemma stopScanning_idem: "stopScanning t2 (stopScanning t1 st) = stopScanning t1 st"
  using stopScanning_result [of t1 st] by (intro stopScanning_fixed) simp_all

lemma stopScanning_releases:
  "streamRef (stopScanning False st) = None \<and> controlsRef (stopScanning False st) = None
   \<and> activeTracks (stopScanning False st)
        \<inter> ((case controlsRef st of None \<Rightarrow> {} | Some c \<Rightarrow> decoderTracks st c)
            \<union> (case streamRef st of None \<Rightarrow> {} | Some ms \<Rightarrow> set ms)) = {}"
  using stopScanning_result [of False st] by (auto split: option.splits)

lemma stopScanning_decoder_session:
  "activeTracks (openEffect decoderHost mountedScanner) = {0}
   \<and> activeTracks (stopScanning False (openEffect decoderHost mountedScanner)) = {}
   \<and> decoders (stopScanning False (openEffect decoderHost mountedScanner)) = []"
  by (intro conjI; code_simp)

subsection \<open>Detections in the barcode dialog\<close>

text \<open>
  Which constants the callbacks test: acceptance depends on the \<open>lastDetectionTime\<close> of
  the snapshot alone, the next frame is requested exactly when the \<open>scanning\<close> of the
  snapshot is true, and the snapshot of a scanner started by the effect is the render in
  which \<open>open\<close> turned true.
\<close>

lemma accept_by_snapshot:
  "timeouts (accept snap code now st)
     = (if now - snapLastDetectionTime snap > 2000 then timeouts st @ [code] else timeouts st)"
  by (simp add: accept_def)

lemma scan_resume_requests_frame:
  "frameCallbacks (scan_resume snap detected now st)
     = (if snapScanning snap then frameCallbacks st @ [(nextFrame st, snap)]
        else frameCallbacks st)"
  by (simp add: scan_resume_def accept_def requestAnimationFrame_def Let_def
           split: sum.splits list.splits)

lemma openEffect_native_snapshot:
  assumes "error st = None" "hasBarcodeDetector host" "userMedia host = Inr mediaStream"
    "played host = None"
  shows "frameCallbacks (openEffect host st) = frameCallbacks st @ [(nextFrame st, render st)]"
    and "scanning (openEffect host st)"
  using assms
  by (simp_all add: openEffect_def startScanning_def requestAnimationFrame_def Let_def)

text \<open>
  After a failed start the error view is shown in place of the video element, so the
  \<open>startScanning\<close> called by the retry button finds no video element and fails again.
\<close>

lemma retry_after_failure:
  "error (retry host (startFailed err st)) = Some ScannerStartFailed
   \<and> \<not> scanning (retry host (startFailed err st))"
  by (simp add: retry_def startScanning_def startFailed_def Let_def errorMessage_def)

text \<open>
  The scenario of the next two theorems: the dialog is opened on a host without
  \<open>BarcodeDetector\<close>, the decoder calls back with a result at 10000 ms and with another at
  10100 ms, and the two timeouts fire, with or without the parent closing the dialog after
  the first.

  C3. The claim has \<open>onDetected\<close> called at most once per open/close cycle. Each call of
  \<open>onDetected\<close> is indeed followed at once by \<open>onClose\<close>. But the callback compares
  \<open>Date.now()\<close> with the \<open>lastDetectionTime\<close> of the render that started the scanner, so
  the second result is accepted like the first; each acceptance sets a timeout that
  nothing clears, and \<open>onDetected\<close> is called twice.
\<close>

theorem C3_two_deliveries:
  "calls (timeoutFires False (closeEffect (timeoutFires False
     (decodeCallback 7 (Some ''B'') 10100
       (decodeCallback 7 (Some ''A'') 10000 (openEffect decoderHost mountedScanner))))))
   = [OnDetected ''A'', OnClose, OnDetected ''B'', OnClose]
   \<and> calls (timeoutFires False (timeoutFires False
     (decodeCallback 7 (Some ''B'') 10100
       (decodeCallback 7 (Some ''A'') 10000 (openEffect decoderHost mountedScanner)))))
   = [OnDetected ''A'', OnClose, OnDetected ''B'', OnClose]"
  by (intro conjI; code_simp)

text \<open>
  C4. The claim has at most the first of two results within 2000 ms accepted. Accepting
  the first result does store its time in the cell, but the test reads the constant of
  the render that made the callback, not the cell: the result at 10100 ms is accepted 100
  ms after the one at 10000 ms.
\<close>

theorem C4_second_result_accepted:
  "timeouts (decodeCallback 7 (Some ''A'') 10000 (openEffect decoderHost mountedScanner))
     = [''A'']
   \<and> lastDetectionTime
       (decodeCallback 7 (Some ''A'') 10000 (openEffect decoderHost mountedScanner)) = 10000
   \<and> timeouts (decodeCallback 7 (Some ''B'') 10100
       (decodeCallback 7 (Some ''A'') 10000 (openEffect decoderHost mountedScanner)))
     = [''A'', ''B'']"
  by (intro conjI; code_simp)

text \<open>
  C8. The claim has every iteration request the next frame while the state is Scanning.
  \<open>scan\<close> tests the \<open>scanning\<close> of the render that started the scanner, which is false:
  the dialog is opened on a host with \<open>BarcodeDetector\<close>, the state is Scanning, the first
  frame runs \<open>scan\<close>, and whatever \<open>detect\<close> gives (barcodes, none, or an error) no further
  frame is requested although the state is still Scanning.
\<close>

theorem C8_loop_ends_while_scanning:
  "scanning (openEffect nativeHost mountedScanner)
   \<and> frameCallbacks (openEffect nativeHost mountedScanner)
       = [(1, \<lparr>snapScanning = False, snapLastDetectionTime = 0\<rparr>)]
   \<and> snd (scan_begin 1 (openEffect nativeHost mountedScanner))
       = Some \<lparr>snapScanning = False, snapLastDetectionTime = 0\<rparr>
   \<and> frameCallbacks (scan_resume \<lparr>snapScanning = False, snapLastDetectionTime = 0\<rparr>
        detected now (fst (scan_begin 1 (openEffect nativeHost mountedScanner)))) = []
   \<and> scanning (scan_resume \<lparr>snapScanning = False, snapLastDetectionTime = 0\<rparr>
        detected now (fst (scan_begin 1 (openEffect nativeHost mountedScanner))))"
proof -
  have a: "scanning (openEffect nativeHost mountedScanner)"
    by code_simp
  have b: "frameCallbacks (openEffect nativeHost mountedScanner)
       = [(1, \<lparr>snapScanning = False, snapLastDetectionTime = 0\<rparr>)]"
    by code_simp
  have c: "snd (scan_begin 1 (openEffect nativeHost mountedScanner))
       = Some \<lparr>snapScanning = False, snapLastDetectionTime = 0\<rparr>"
    by code_simp
  have d: "frameCallbacks (fst (scan_begin 1 (openEffect nativeHost mountedScanner))) = []"
    by code_simp
  have e: "scanning (fst (scan_begin 1 (openEffect nativeHost mountedScanner)))"
    by code_simp
  have "frameCallbacks (scan_resume \<lparr>snapScanning = False, snapLastDetectionTime = 0\<rparr>
        detected now s) = frameCallbacks s
      \<and> scanning (scan_resume \<lparr>snapScanning = False, snapLastDetectionTime = 0\<rparr>
        detected now s) = scanning s" for s
    by (simp add: scan_resume_def accept_def split: sum.splits list.splits)
  with a b c d e show ?thesis by simp
qed

theorem C8_loop_ends_while_scanning_witness:
  "scanning (openEffect nativeHost mountedScanner)
   \<and> frameCallbacks (scan_resume \<lparr>snapScanning = False, snapLastDetectionTime = 0\<rparr>
        (Inr []) 5000 (fst (scan_begin 1 (openEffect nativeHost mountedScanner)))) = []
   \<and> scanning (scan_resume \<lparr>snapScanning = False, snapLastDetectionTime = 0\<rparr>
        (Inr []) 5000 (fst (scan_begin 1 (openEffect nativeHost mountedScanner))))"
  using C8_loop_ends_while_scanning [of "Inr []" 5000] by blast

end
